theory Spec2Isabelle
  imports Main "HOL-Library.Word" "HOL-Library.Multiset"
begin

section \<open>JavaScript strings\<close>

text \<open>
  A JavaScript string is a sequence of UTF-16 code units. String literals of the source
  are ASCII and are written through \<open>str\<close>, which maps every character of an Isabelle
  string to its code unit.
\<close>

type_synonym jsstring = "16 word list"

definition str :: "string \<Rightarrow> jsstring" where
  "str s = map of_char s"

text \<open>
  \<open>String.prototype.trim\<close> removes, from both ends, the code units that ECMAScript calls
  WhiteSpace (TAB, VT, FF, SP, NBSP, ZWNBSP and the space separators of Unicode) or
  LineTerminator (LF, CR, LS, PS).
\<close>

definition isWhiteSpace :: "16 word \<Rightarrow> bool" where
  "isWhiteSpace c =
     (c = 0x0009 \<or> c = 0x000A \<or> c = 0x000B \<or> c = 0x000C \<or> c = 0x000D \<or> c = 0x0020
      \<or> c = 0x00A0 \<or> c = 0x1680 \<or> (0x2000 \<le> c \<and> c \<le> 0x200A)
      \<or> c = 0x2028 \<or> c = 0x2029 \<or> c = 0x202F \<or> c = 0x205F \<or> c = 0x3000 \<or> c = 0xFEFF)"

definition trim :: "jsstring \<Rightarrow> jsstring" where
  "trim s = rev (dropWhile isWhiteSpace (rev (dropWhile isWhiteSpace s)))"

text \<open>\<open>s.startsWith(p)\<close> and \<open>s.includes(q)\<close>: \<open>q\<close> occurs in \<open>s\<close> as a contiguous run.\<close>

fun startsWith :: "jsstring \<Rightarrow> jsstring \<Rightarrow> bool" where
  "startsWith s [] = True"
| "startsWith [] (p # ps) = False"
| "startsWith (c # cs) (p # ps) = (c = p \<and> startsWith cs ps)"

fun includes_str :: "jsstring \<Rightarrow> jsstring \<Rightarrow> bool" where
  "includes_str [] q = (q = [])"
| "includes_str (c # cs) q = (startsWith (c # cs) q \<or> includes_str cs q)"

section \<open>Backend errors and what the handlers catch\<close>

text \<open>
  Every backend call answers with a data part and an error part. An error object
  carries a message; the handlers' \<open>catch\<close> blocks show it only when the thrown value is
  an instance of \<open>Error\<close>, so the model records that too.
\<close>

record js_error =
  instanceof_Error :: bool
  message :: jsstring

section \<open>The room directory (RoomList)\<close>

record room =
  id' :: jsstring
  name :: jsstring
  owner_email :: jsstring
  created_at :: jsstring
  password_hash :: jsstring
  max_users :: int
  owner_id :: jsstring

text \<open>The part of the session the components read: \<open>session.user.id\<close> and \<open>session.user.email\<close>.\<close>

record session =
  session_user_id :: jsstring
  session_user_email :: "jsstring option"

text \<open>The component's state, one field for each \<open>useState\<close> of the source.\<close>

record roomlist_state =
  rooms :: "room list"
  filteredRooms :: "room list"
  showCreateModal :: bool
  showJoinModal :: bool
  showSettings :: bool
  selectedRoom :: "room option"
  newRoomName :: jsstring
  newRoomPassword :: jsstring
  maxUsers :: int
  joinPassword :: jsstring
  searchQuery :: jsstring

text \<open>The row \<open>createRoom\<close> sends to the \<open>rooms\<close> table; the backend adds id and creation time.\<close>

record new_room =
  new_name :: jsstring
  new_password_hash :: jsstring
  new_max_users :: int
  new_owner_id :: jsstring
  new_owner_email :: "jsstring option"

text \<open>The row the chat sends to the \<open>messages\<close> table, and a message as the chat holds it.\<close>

datatype message_type = Text | Image

record message_row =
  content :: jsstring
  user_id :: jsstring
  user_email :: "jsstring option"
  image_url :: "jsstring option"
  message_type :: message_type
  room_id :: jsstring

record message = message_row +
  message_id :: jsstring
  message_created_at :: jsstring
  avatar_url :: "jsstring option"

text \<open>
  What a handler does to the outside world, in the order it does it: the form event's
  \<open>preventDefault\<close>, the notices (\<open>toast.error\<close>, \<open>toast.success\<close>), the backend calls,
  the navigation callback \<open>onRoomSelect\<close> and the reset of the chat's file input.
\<close>

datatype effect =
    Prevent_default
  | Toast_error jsstring
  | Toast_success jsstring
  | Auth_get_user
  | Insert_room new_room
  | Select_room_user jsstring jsstring
  | Count_room_users jsstring
  | Insert_room_user jsstring jsstring
  | On_room_select jsstring
  | Storage_upload jsstring
  | Storage_getPublicUrl jsstring
  | Insert_message message_row
  | Reset_file_input

text \<open>
  The answers of the backend to the three calls of \<open>joinRoom\<close>: the membership lookup
  (\<open>maybeSingle\<close>: an error, or a row or null), the count query (an error, or a count
  that may be null) and the insert (an error or null).
\<close>

record join_backend =
  membership_resp :: "js_error + unit option"
  count_resp :: "js_error + int option"
  join_resp :: "js_error option"

text \<open>The \<open>catch\<close> block shared by the handlers.\<close>

definition catch_toast :: "js_error \<Rightarrow> effect list" where
  "catch_toast e = (if instanceof_Error e then [Toast_error (message e)] else [])"

definition joinRoom :: "session \<Rightarrow> join_backend \<Rightarrow> roomlist_state \<Rightarrow> effect list \<times> roomlist_state" where
  "joinRoom sess be st =
     (case selectedRoom st of
        None \<Rightarrow> ([Prevent_default], st)
      | Some r \<Rightarrow>
          if trim (joinPassword st) = [] then
            ([Prevent_default, Toast_error (str ''Room password is required'')], st)
          else if joinPassword st \<noteq> password_hash r then
            ([Prevent_default, Toast_error (str ''Incorrect password'')], st)
          else
            (case membership_resp be of
               Inl membershipError \<Rightarrow>
                 ([Prevent_default, Select_room_user (id' r) (session_user_id sess)]
                    @ catch_toast membershipError, st)
             | Inr (Some existingMembership) \<Rightarrow>
                 ([Prevent_default, Select_room_user (id' r) (session_user_id sess),
                   On_room_select (id' r)],
                  st\<lparr>showJoinModal := False, joinPassword := []\<rparr>)
             | Inr None \<Rightarrow>
                 (case count_resp be of
                    Inl countError \<Rightarrow>
                      ([Prevent_default, Select_room_user (id' r) (session_user_id sess),
                        Count_room_users (id' r)] @ catch_toast countError, st)
                  | Inr cnt \<Rightarrow>
                      if cnt \<noteq> None \<and> the cnt \<ge> max_users r then
                        ([Prevent_default, Select_room_user (id' r) (session_user_id sess),
                          Count_room_users (id' r),
                          Toast_error (str ''Room is full. Please try another room.'')],
                         st\<lparr>showJoinModal := False, joinPassword := []\<rparr>)
                      else
                        (case join_resp be of
                           Some joinError \<Rightarrow>
                             ([Prevent_default, Select_room_user (id' r) (session_user_id sess),
                               Count_room_users (id' r),
                               Insert_room_user (id' r) (session_user_id sess)]
                                @ catch_toast joinError, st)
                         | None \<Rightarrow>
                             ([Prevent_default, Select_room_user (id' r) (session_user_id sess),
                               Count_room_users (id' r),
                               Insert_room_user (id' r) (session_user_id sess),
                               On_room_select (id' r),
                               Toast_success (str ''Successfully joined the room!'')],
                              st\<lparr>showJoinModal := False, joinPassword := []\<rparr>)))))"

text \<open>
  \<open>createRoom\<close>: the answers of the backend are the authenticated user (id and email, or
  null) and the inserted row or an error. \<open>new Error('User not found')\<close> is an instance
  of \<open>Error\<close>, so its message is shown.
\<close>

record create_backend =
  getUser_resp :: "(jsstring \<times> jsstring option) option"
  insert_room_resp :: "js_error + room"

definition createRoom :: "create_backend \<Rightarrow> roomlist_state \<Rightarrow> effect list \<times> roomlist_state" where
  "createRoom be st =
     (if trim (newRoomPassword st) = [] then
        ([Prevent_default, Toast_error (str ''Room password is required'')], st)
      else
        (case getUser_resp be of
           None \<Rightarrow> ([Prevent_default, Auth_get_user, Toast_error (str ''User not found'')], st)
         | Some (uid, uemail) \<Rightarrow>
             (let row = \<lparr>new_name = newRoomName st, new_password_hash = newRoomPassword st,
                        new_max_users = maxUsers st, new_owner_id = uid,
                        new_owner_email = uemail\<rparr>
              in case insert_room_resp be of
                   Inl error \<Rightarrow>
                     ([Prevent_default, Auth_get_user, Insert_room row] @ catch_toast error, st)
                 | Inr data \<Rightarrow>
                     ([Prevent_default, Auth_get_user, Insert_room row, On_room_select (id' data),
                       Toast_success (str ''Room created successfully!'')],
                      st\<lparr>showCreateModal := False, newRoomName := [], newRoomPassword := [],
                         maxUsers := 10\<rparr>))))"

subsection \<open>Ordering and searching the directory\<close>

text \<open>
  The comparator of the three \<open>sort\<close> calls. \<open>new Date(s).getTime()\<close> is a parameter,
  \<open>getTime\<close>: the creation times come from the backend's timestamp column, so each
  parses to a number of milliseconds.
\<close>

definition compareRooms :: "(jsstring \<Rightarrow> int) \<Rightarrow> session \<Rightarrow> room \<Rightarrow> room \<Rightarrow> int" where
  "compareRooms getTime sess a b =
     (if (owner_id a = session_user_id sess) = (owner_id b = session_user_id sess) then
        getTime (created_at b) - getTime (created_at a)
      else if owner_id a = session_user_id sess then - 1 else 1)"

text \<open>
  \<open>Array.prototype.sort\<close> is stable, and with a consistent comparator its result is
  determined: the model is the stable insertion sort, where \<open>x\<close> goes before the first
  element it does not compare greater than.
\<close>

fun sort_insert :: "('a \<Rightarrow> 'a \<Rightarrow> int) \<Rightarrow> 'a \<Rightarrow> 'a list \<Rightarrow> 'a list" where
  "sort_insert cmp x [] = [x]"
| "sort_insert cmp x (y # ys) =
     (if cmp x y \<le> 0 then x # y # ys else y # sort_insert cmp x ys)"

definition array_sort :: "('a \<Rightarrow> 'a \<Rightarrow> int) \<Rightarrow> 'a list \<Rightarrow> 'a list" where
  "array_sort cmp xs = foldr (sort_insert cmp) xs []"

text \<open>\<open>fetchRooms\<close>: the backend answers with an error, or with the rows or null.\<close>

definition fetchRooms ::
  "(jsstring \<Rightarrow> int) \<Rightarrow> session \<Rightarrow> js_error + room list option \<Rightarrow> roomlist_state
     \<Rightarrow> effect list \<times> roomlist_state" where
  "fetchRooms getTime sess resp st =
     (case resp of
        Inl error \<Rightarrow> ([Toast_error (str ''Failed to fetch rooms'')], st)
      | Inr data \<Rightarrow>
          (let sortedRooms =
                 array_sort (compareRooms getTime sess) (case data of None \<Rightarrow> [] | Some d \<Rightarrow> d)
           in ([], st\<lparr>rooms := sortedRooms, filteredRooms := sortedRooms\<rparr>)))"

text \<open>
  The search effect, run whenever the query, the rooms or the user change.
  \<open>String.prototype.toLowerCase\<close> is a parameter.
\<close>

definition searchEffect ::
  "(jsstring \<Rightarrow> jsstring) \<Rightarrow> (jsstring \<Rightarrow> int) \<Rightarrow> session \<Rightarrow> roomlist_state \<Rightarrow> roomlist_state" where
  "searchEffect toLowerCase getTime sess st =
     (if trim (searchQuery st) = [] then
        st\<lparr>filteredRooms := array_sort (compareRooms getTime sess) (rooms st)\<rparr>
      else
        (let query = toLowerCase (searchQuery st)
         in st\<lparr>filteredRooms :=
               array_sort (compareRooms getTime sess)
                 (filter (\<lambda>room. includes_str (toLowerCase (id' room)) query
                                 \<or> includes_str (toLowerCase (name room)) query)
                    (rooms st))\<rparr>))"

section \<open>The chat panel (Chat)\<close>

record chat_state =
  messages :: "message list"
  newMessage :: jsstring
  showEmojiPicker :: bool
  isUploading :: bool
  isDragging :: bool

definition handleSend ::
  "session \<Rightarrow> jsstring \<Rightarrow> js_error option \<Rightarrow> chat_state \<Rightarrow> effect list \<times> chat_state" where
  "handleSend sess roomId insert_resp st =
     (if trim (newMessage st) = [] then ([Prevent_default], st)
      else
        (let row = \<lparr>content = newMessage st, user_id = session_user_id sess,
                    user_email = session_user_email sess, image_url = None,
                    message_type = Text, room_id = roomId\<rparr>
         in case insert_resp of
              Some error \<Rightarrow> ([Prevent_default, Insert_message row] @ catch_toast error, st)
            | None \<Rightarrow> ([Prevent_default, Insert_message row], st\<lparr>newMessage := []\<rparr>)))"

text \<open>
  \<open>handleImageUpload\<close>. The file is its media type and its name. The backend's part:
  the text of \<open>Math.random()\<close>, the answer to the upload, the public URL of a path, the
  answer to the message insert, and whether the file input is mounted.
\<close>

record js_file =
  file_type :: jsstring
  file_name :: jsstring

record upload_backend =
  random_text :: jsstring
  upload_resp :: "js_error option"
  publicUrl :: "jsstring \<Rightarrow> jsstring"
  message_resp :: "js_error option"
  fileInput_current :: bool

text \<open>\<open>file.name.split('.').pop()\<close>: what follows the last dot, or the whole name.\<close>

definition fileExt :: "jsstring \<Rightarrow> jsstring" where
  "fileExt n = rev (takeWhile (\<lambda>c. c \<noteq> 0x2E) (rev n))"

definition filePath :: "session \<Rightarrow> upload_backend \<Rightarrow> js_file \<Rightarrow> jsstring" where
  "filePath sess be f =
     session_user_id sess @ str ''/'' @ (random_text be @ str ''.'' @ fileExt (file_name f))"

definition handleImageUpload ::
  "session \<Rightarrow> jsstring \<Rightarrow> upload_backend \<Rightarrow> js_file \<Rightarrow> chat_state \<Rightarrow> effect list \<times> chat_state" where
  "handleImageUpload sess roomId be f st =
     (if \<not> startsWith (file_type f) (str ''image/'') then
        ([Toast_error (str ''Please upload an image file'')], st)
      else
        (case upload_resp be of
           Some uploadError \<Rightarrow>
             ([Storage_upload (filePath sess be f)] @ catch_toast uploadError,
              st\<lparr>isUploading := False\<rparr>)
         | None \<Rightarrow>
             (let row = \<lparr>content = str ''Sent an image'', user_id = session_user_id sess,
                         user_email = session_user_email sess,
                         image_url = Some (publicUrl be (filePath sess be f)),
                         message_type = Image, room_id = roomId\<rparr>
              in case message_resp be of
                   Some messageError \<Rightarrow>
                     ([Storage_upload (filePath sess be f), Storage_getPublicUrl (filePath sess be f),
                       Insert_message row] @ catch_toast messageError,
                      st\<lparr>isUploading := False\<rparr>)
                 | None \<Rightarrow>
                     ([Storage_upload (filePath sess be f), Storage_getPublicUrl (filePath sess be f),
                       Insert_message row] @ (if fileInput_current be then [Reset_file_input] else []),
                      st\<lparr>isUploading := False\<rparr>))))"

section \<open>The room view (RoomView)\<close>

record roomview_state =
  showChat :: bool
  showMembers :: bool
  showLeaderboard :: bool

definition initial_view :: roomview_state where
  "initial_view = \<lparr>showChat = False, showMembers = False, showLeaderboard = False\<rparr>"

text \<open>The three buttons of the header, and the \<open>onClose\<close> of the members panel.\<close>

datatype view_action = Toggle_members | Toggle_leaderboard | Toggle_chat | Close_members

fun click :: "view_action \<Rightarrow> roomview_state \<Rightarrow> roomview_state" where
  "click Toggle_members st = st\<lparr>showMembers := \<not> showMembers st\<rparr>"
| "click Toggle_leaderboard st = st\<lparr>showLeaderboard := \<not> showLeaderboard st, showChat := False\<rparr>"
| "click Toggle_chat st = st\<lparr>showChat := \<not> showChat st, showLeaderboard := False\<rparr>"
| "click Close_members st = st\<lparr>showMembers := False\<rparr>"

definition clicks :: "view_action list \<Rightarrow> roomview_state \<Rightarrow> roomview_state" where
  "clicks acts st = foldl (\<lambda>s a. click a s) st acts"

text \<open>
  What the component renders: the members panel when \<open>showMembers\<close>, the leaderboard when
  \<open>showLeaderboard\<close>, the grid of timers unless \<open>showChat || showLeaderboard\<close> hides it,
  the chat when \<open>showChat\<close>.
\<close>

datatype view = Members_panel | Leaderboard_view | Timer_grid | Chat_panel

fun rendered :: "roomview_state \<Rightarrow> view \<Rightarrow> bool" where
  "rendered st Members_panel = showMembers st"
| "rendered st Leaderboard_view = showLeaderboard st"
| "rendered st Timer_grid = (\<not> (showChat st \<or> showLeaderboard st))"
| "rendered st Chat_panel = showChat st"

definition active_views :: "roomview_state \<Rightarrow> view list" where
  "active_views st = filter (rendered st) [Members_panel, Leaderboard_view, Timer_grid, Chat_panel]"

section \<open>Observations on effect traces\<close>

fun is_membership_insert :: "effect \<Rightarrow> bool" where
  "is_membership_insert (Insert_room_user rid uid) = True"
| "is_membership_insert e = False"

fun is_navigation :: "effect \<Rightarrow> bool" where
  "is_navigation (On_room_select rid) = True"
| "is_navigation e = False"

fun is_message_insert :: "effect \<Rightarrow> bool" where
  "is_message_insert (Insert_message row) = True"
| "is_message_insert e = False"

text \<open>
  The order the specification asks of the directory: a room may stand before another
  when it is not a foreign room before one of the user's own, and, within one group,
  when it is not older.
\<close>

definition owner_first_recent :: "(jsstring \<Rightarrow> int) \<Rightarrow> session \<Rightarrow> room \<Rightarrow> room \<Rightarrow> bool" where
  "owner_first_recent getTime sess a b =
     ((owner_id a = session_user_id sess \<or> owner_id b \<noteq> session_user_id sess)
      \<and> ((owner_id a = session_user_id sess) \<noteq> (owner_id b = session_user_id sess)
           \<or> getTime (created_at b) \<le> getTime (created_at a)))"

text \<open>
  Containing a query as a case-insensitive substring, for ASCII text, said without
  \<open>toLowerCase\<close>: two code units are the same up to case when they are equal or one is a
  capital \<open>A\<close> to \<open>Z\<close> and the other the small letter \<open>0x20\<close> above it; a string contains
  a query ignoring case when some contiguous part of it has the query's length and is,
  code unit by code unit, the same up to case.
\<close>

definition eq_ignoring_case :: "16 word \<Rightarrow> 16 word \<Rightarrow> bool" where
  "eq_ignoring_case a b =
     (a = b \<or> (0x41 \<le> a \<and> a \<le> 0x5A \<and> b = a + 0x20) \<or> (0x41 \<le> b \<and> b \<le> 0x5A \<and> a = b + 0x20))"

fun starts_ignoring_case :: "jsstring \<Rightarrow> jsstring \<Rightarrow> bool" where
  "starts_ignoring_case s [] = True"
| "starts_ignoring_case [] (p # ps) = False"
| "starts_ignoring_case (c # cs) (p # ps) = (eq_ignoring_case c p \<and> starts_ignoring_case cs ps)"

fun contains_ignoring_case :: "jsstring \<Rightarrow> jsstring \<Rightarrow> bool" where
  "contains_ignoring_case [] q = (q = [])"
| "contains_ignoring_case (c # cs) q =
     (starts_ignoring_case (c # cs) q \<or> contains_ignoring_case cs q)"

definition matches_ignoring_case :: "jsstring \<Rightarrow> room \<Rightarrow> bool" where
  "matches_ignoring_case q r =
     (contains_ignoring_case (id' r) q \<or> contains_ignoring_case (name r) q)"

definition is_ascii :: "16 word \<Rightarrow> bool" where
  "is_ascii c = (c \<le> 0x7F)"

text \<open>
  What \<open>toLowerCase\<close> does to ASCII text: the capitals \<open>A\<close> to \<open>Z\<close> become the small
  letters, every other code unit stays.
\<close>

definition ascii_lower :: "16 word \<Rightarrow> 16 word" where
  "ascii_lower c = (if 0x41 \<le> c \<and> c \<le> 0x5A then c + 0x20 else c)"

definition ascii_toLowerCase :: "jsstring \<Rightarrow> jsstring" where
  "ascii_toLowerCase s = map ascii_lower s"

text \<open>
  What \<open>toLowerCase\<close> does to a string of the Greek capitals alpha (\<open>0x0391\<close>) and sigma
  (\<open>0x03A3\<close>): alpha becomes the small alpha (\<open>0x03B1\<close>); sigma becomes the final small
  sigma (\<open>0x03C2\<close>) at the end of the string after a letter, and the small sigma
  (\<open>0x03C3\<close>) elsewhere.
\<close>

definition greek_lower :: "16 word \<Rightarrow> 16 word" where
  "greek_lower c = (if c = 0x0391 then 0x03B1 else if c = 0x03A3 then 0x03C3 else c)"

definition sigma_toLowerCase :: "jsstring \<Rightarrow> jsstring" where
  "sigma_toLowerCase s =
     (if 2 \<le> length s \<and> last s = 0x03A3 then map greek_lower (butlast s) @ [0x03C2]
      else map greek_lower s)"

text \<open>The two actions on the members panel, among the actions of the room view.\<close>

fun is_members_action :: "view_action \<Rightarrow> bool" where
  "is_members_action Toggle_members = True"
| "is_members_action Close_members = True"
| "is_members_action a = False"

section \<open>Example scenarios\<close>

text \<open>
  The scenario of the specification: room \<open>r1\<close> with \<open>max_users = 2\<close>, owned by \<open>u1\<close>,
  and a third user \<open>u3\<close> at the join dialog.
\<close>

definition ex_session :: session where
  "ex_session = \<lparr>session_user_id = str ''u3'', session_user_email = Some (str ''c@x.io'')\<rparr>"

definition ex_room :: room where
  "ex_room = \<lparr>id' = str ''r1'', name = str ''Study'', owner_email = str ''a@x.io'',
               created_at = str ''2024-01-01'', password_hash = str ''abc123'',
               max_users = 2, owner_id = str ''u1''\<rparr>"

definition ex_join_state :: "jsstring \<Rightarrow> roomlist_state" where
  "ex_join_state pw =
     \<lparr>rooms = [ex_room], filteredRooms = [ex_room], showCreateModal = False,
      showJoinModal = True, showSettings = False, selectedRoom = Some ex_room,
      newRoomName = [], newRoomPassword = [], maxUsers = 10, joinPassword = pw,
      searchQuery = []\<rparr>"

definition ex_backend :: "unit option \<Rightarrow> int option \<Rightarrow> join_backend" where
  "ex_backend membership cnt =
     \<lparr>membership_resp = Inr membership, count_resp = Inr cnt, join_resp = None\<rparr>"

text \<open>Three rooms, the second and third owned by \<open>u3\<close>, and the times of their dates.\<close>

definition ex_rooms :: "room list" where
  "ex_rooms =
     [ex_room,
      ex_room\<lparr>id' := str ''r2'', name := str ''Maths'', owner_id := str ''u3'',
              created_at := str ''2024-01-02''\<rparr>,
      ex_room\<lparr>id' := str ''r3'', name := str ''Physics'', owner_id := str ''u3'',
              created_at := str ''2024-01-03''\<rparr>]"

definition ex_getTime :: "jsstring \<Rightarrow> int" where
  "ex_getTime s =
     (if s = str ''2024-01-01'' then 1704067200000
      else if s = str ''2024-01-02'' then 1704153600000
      else 1704240000000)"

definition ex_search_state :: "jsstring \<Rightarrow> roomlist_state" where
  "ex_search_state q = (ex_join_state [])\<lparr>rooms := ex_rooms, searchQuery := q\<rparr>"

definition ex_chat_state :: "jsstring \<Rightarrow> chat_state" where
  "ex_chat_state text =
     \<lparr>messages = [], newMessage = text, showEmojiPicker = False, isUploading = False,
      isDragging = False\<rparr>"

definition ex_file :: js_file where
  "ex_file = \<lparr>file_type = str ''image/png'', file_name = str ''cat.png''\<rparr>"

definition ex_upload_backend :: "js_error option \<Rightarrow> upload_backend" where
  "ex_upload_backend uploadError =
     \<lparr>random_text = str ''0.25'', upload_resp = uploadError,
      publicUrl = (\<lambda>p. str ''https://cdn/'' @ p), message_resp = None,
      fileInput_current = True\<rparr>"

definition ex_error :: js_error where
  "ex_error = \<lparr>instanceof_Error = True, message = str ''upload failed''\<rparr>"

text \<open>
  A room whose stored password is one space, and the join dialog on it with one space
  typed as the password.
\<close>

definition ex_blank_room :: room where
  "ex_blank_room = ex_room\<lparr>password_hash := str '' ''\<rparr>"

definition ex_blank_state :: roomlist_state where
  "ex_blank_state = (ex_join_state (str '' ''))\<lparr>selectedRoom := Some ex_blank_room\<rparr>"

text \<open>A room named by the Greek capitals alpha and sigma, and the query of one capital sigma.\<close>

definition ex_sigma_room :: room where
  "ex_sigma_room = ex_room\<lparr>id' := str ''r4'', name := [0x0391, 0x03A3]\<rparr>"

definition ex_sigma_state :: roomlist_state where
  "ex_sigma_state = (ex_join_state [])\<lparr>rooms := [ex_sigma_room], searchQuery := [0x03A3]\<rparr>"

section \<open>Facts about strings\<close>

lemma trim_empty_iff: "trim s = [] \<longleftrightarrow> (\<forall>c\<in>set s. isWhiteSpace c)"
proof
  assume "trim s = []"
  then have a: "\<forall>c\<in>set (dropWhile isWhiteSpace s). isWhiteSpace c"
    by (simp add: trim_def)
  have "dropWhile isWhiteSpace s = []"
  proof (cases "dropWhile isWhiteSpace s")
    case Nil
    then show ?thesis .
  next
    case (Cons x xs)
    then have "\<not> isWhiteSpace x"
      by (metis hd_dropWhile list.sel(1) list.distinct(1))
    with a Cons show ?thesis by simp
  qed
  then show "\<forall>c\<in>set s. isWhiteSpace c" by simp
next
  assume "\<forall>c\<in>set s. isWhiteSpace c"
  then have "dropWhile isWhiteSpace s = []" by simp
  then show "trim s = []"
    unfolding trim_def by (simp del: dropWhile_eq_Nil_conv)
qed

lemma startsWith_iff: "startsWith s p \<longleftrightarrow> (\<exists>ss. s = p @ ss)"
  by (induction s p rule: startsWith.induct) auto

text \<open>\<open>includes_str s q\<close> says that \<open>q\<close> is a contiguous part of \<open>s\<close>.\<close>

lemma includes_str_iff: "includes_str s q \<longleftrightarrow> (\<exists>ps ss. s = ps @ q @ ss)"
proof (induction s)
  case Nil
  then show ?case by auto
next
  case (Cons c cs)
  show ?case
  proof
    assume "includes_str (c # cs) q"
    then consider "startsWith (c # cs) q" | "includes_str cs q" by auto
    then show "\<exists>ps ss. c # cs = ps @ q @ ss"
    proof cases
      case 1
      then obtain ss where "c # cs = q @ ss" by (auto simp: startsWith_iff)
      then have "c # cs = [] @ q @ ss" by simp
      then show ?thesis by blast
    next
      case 2
      then obtain ps ss where "cs = ps @ q @ ss" using Cons.IH by auto
      then have "c # cs = (c # ps) @ q @ ss" by simp
      then show ?thesis by blast
    qed
  next
    assume "\<exists>ps ss. c # cs = ps @ q @ ss"
    then obtain ps ss where e: "c # cs = ps @ q @ ss" by blast
    show "includes_str (c # cs) q"
    proof (cases ps)
      case Nil
      with e have "startsWith (c # cs) q" by (auto simp: startsWith_iff)
      then show ?thesis by simp
    next
      case (Cons p ps')
      with e have "cs = ps' @ q @ ss" by simp
      then have "includes_str cs q" using Cons.IH by blast
      then show ?thesis by simp
    qed
  qed
qed

text \<open>
  Lower-casing ASCII text code unit by code unit and then looking for the lower-cased
  query is looking for the query up to case.
\<close>

lemma ascii_lower_eq_iff: "ascii_lower a = ascii_lower b \<longleftrightarrow> eq_ignoring_case a b"
  unfolding ascii_lower_def eq_ignoring_case_def
  by (auto simp: word_le_nat_alt unat_word_ariths)

lemma startsWith_lower:
  "startsWith (ascii_toLowerCase s) (ascii_toLowerCase q) = starts_ignoring_case s q"
  by (induction s q rule: starts_ignoring_case.induct)
     (simp_all add: ascii_toLowerCase_def ascii_lower_eq_iff)

lemma includes_lower:
  "includes_str (ascii_toLowerCase s) (ascii_toLowerCase q) = contains_ignoring_case s q"
proof (induction s)
  case Nil
  then show ?case by (simp add: ascii_toLowerCase_def)
next
  case (Cons c cs)
  have "startsWith (ascii_toLowerCase (c # cs)) (ascii_toLowerCase q)
          = starts_ignoring_case (c # cs) q"
    by (rule startsWith_lower)
  moreover have "ascii_toLowerCase (c # cs) = ascii_lower c # ascii_toLowerCase cs"
    by (simp add: ascii_toLowerCase_def)
  ultimately show ?case using Cons.IH by simp
qed

text \<open>
  \<open>contains_ignoring_case s q\<close> says that some contiguous part of \<open>s\<close> is \<open>q\<close> up to the
  case of its letters.
\<close>

lemma starts_ignoring_case_iff:
  "starts_ignoring_case s q \<longleftrightarrow> (\<exists>p ss. s = p @ ss \<and> list_all2 eq_ignoring_case p q)"
proof (induction s q rule: starts_ignoring_case.induct)
  case (1 s)
  then show ?case by simp
next
  case (2 p ps)
  then show ?case by simp
next
  case (3 c cs p ps)
  show ?case
  proof
    assume "starts_ignoring_case (c # cs) (p # ps)"
    then have "eq_ignoring_case c p" and "starts_ignoring_case cs ps" by simp_all
    then obtain u ss where "cs = u @ ss" "list_all2 eq_ignoring_case u ps"
      using 3 by blast
    then have "c # cs = (c # u) @ ss \<and> list_all2 eq_ignoring_case (c # u) (p # ps)"
      using \<open>eq_ignoring_case c p\<close> by simp
    then show "\<exists>u ss. c # cs = u @ ss \<and> list_all2 eq_ignoring_case u (p # ps)" by blast
  next
    assume "\<exists>u ss. c # cs = u @ ss \<and> list_all2 eq_ignoring_case u (p # ps)"
    then obtain u ss where e: "c # cs = u @ ss" "list_all2 eq_ignoring_case u (p # ps)"
      by blast
    then obtain u' where u: "u = c # u'" "eq_ignoring_case c p"
        "list_all2 eq_ignoring_case u' ps"
      by (cases u) auto
    with e have "cs = u' @ ss" by simp
    with u 3 have "starts_ignoring_case cs ps" by blast
    with u show "starts_ignoring_case (c # cs) (p # ps)" by simp
  qed
qed

lemma contains_ignoring_case_iff:
  "contains_ignoring_case s q
     \<longleftrightarrow> (\<exists>ps p ss. s = ps @ p @ ss \<and> list_all2 eq_ignoring_case p q)"
proof (induction s)
  case Nil
  then show ?case by auto
next
  case (Cons c cs)
  show ?case
  proof
    assume "contains_ignoring_case (c # cs) q"
    then consider "starts_ignoring_case (c # cs) q" | "contains_ignoring_case cs q" by auto
    then show "\<exists>ps p ss. c # cs = ps @ p @ ss \<and> list_all2 eq_ignoring_case p q"
    proof cases
      case 1
      then obtain p ss where "c # cs = p @ ss" "list_all2 eq_ignoring_case p q"
        by (auto simp: starts_ignoring_case_iff)
      then have "c # cs = [] @ p @ ss \<and> list_all2 eq_ignoring_case p q" by simp
      then show ?thesis by blast
    next
      case 2
      then obtain ps p ss where "cs = ps @ p @ ss" "list_all2 eq_ignoring_case p q"
        using Cons.IH by auto
      then have "c # cs = (c # ps) @ p @ ss \<and> list_all2 eq_ignoring_case p q" by simp
      then show ?thesis by blast
    qed
  next
    assume "\<exists>ps p ss. c # cs = ps @ p @ ss \<and> list_all2 eq_ignoring_case p q"
    then obtain ps p ss where e: "c # cs = ps @ p @ ss" "list_all2 eq_ignoring_case p q"
      by blast
    show "contains_ignoring_case (c # cs) q"
    proof (cases ps)
      case Nil
      with e have "starts_ignoring_case (c # cs) q"
        by (auto simp: starts_ignoring_case_iff)
      then show ?thesis by simp
    next
      case (Cons x ps')
      with e have "cs = ps' @ p @ ss" by simp
      with e have "contains_ignoring_case cs q" using Cons.IH by blast
      then show ?thesis by simp
    qed
  qed
qed

lemmas ex_defs = ex_session_def ex_room_def ex_join_state_def ex_backend_def
  str_def trim_def isWhiteSpace_def ex_rooms_def ex_getTime_def ex_search_state_def
  ex_chat_state_def ex_file_def ex_upload_backend_def ex_error_def
  ex_blank_room_def ex_blank_state_def ex_sigma_room_def ex_sigma_state_def

section \<open>Joining a room\<close>

text \<open>
  \<open>createRoom\<close> refuses a blank password before it calls the backend, so every room
  row it writes has a stored password that is not blank.
\<close>

lemma createRoom_password_nonblank:
  "Insert_room row \<in> set (fst (createRoom be st)) \<Longrightarrow> trim (new_password_hash row) \<noteq> []"
  by (auto simp: createRoom_def catch_toast_def Let_def
      split: if_splits option.splits sum.splits prod.splits)

text \<open>
  A blank password at the join dialog is refused by the first check, whatever the room
  stores; nothing else happens.
\<close>

lemma joinRoom_blank_password:
  assumes "selectedRoom st = Some r" "trim (joinPassword st) = []"
  shows "joinRoom sess be st =
     ([Prevent_default, Toast_error (str ''Room password is required'')], st)"
  using assms by (simp add: joinRoom_def)

text \<open>A password that differs from the stored one: one notice, the state as it was.\<close>

lemma joinRoom_rejected_password:
  assumes "selectedRoom st = Some r" "joinPassword st \<noteq> password_hash r"
  shows "joinRoom sess be st =
     ([Prevent_default,
       Toast_error (if trim (joinPassword st) = [] then str ''Room password is required''
                    else str ''Incorrect password'')], st)"
  using assms by (simp add: joinRoom_def)

text \<open>Past the two password checks, the handler is driven by the backend's answers alone.\<close>

lemma joinRoom_accepted:
  assumes "selectedRoom st = Some r" "trim (password_hash r) \<noteq> []"
    "joinPassword st = password_hash r"
  shows "joinRoom sess be st =
     (case membership_resp be of
        Inl membershipError \<Rightarrow>
          ([Prevent_default, Select_room_user (id' r) (session_user_id sess)]
             @ catch_toast membershipError, st)
      | Inr (Some existingMembership) \<Rightarrow>
          ([Prevent_default, Select_room_user (id' r) (session_user_id sess),
            On_room_select (id' r)],
           st\<lparr>showJoinModal := False, joinPassword := []\<rparr>)
      | Inr None \<Rightarrow>
          (case count_resp be of
             Inl countError \<Rightarrow>
               ([Prevent_default, Select_room_user (id' r) (session_user_id sess),
                 Count_room_users (id' r)] @ catch_toast countError, st)
           | Inr cnt \<Rightarrow>
               if cnt \<noteq> None \<and> the cnt \<ge> max_users r then
                 ([Prevent_default, Select_room_user (id' r) (session_user_id sess),
                   Count_room_users (id' r),
                   Toast_error (str ''Room is full. Please try another room.'')],
                  st\<lparr>showJoinModal := False, joinPassword := []\<rparr>)
               else
                 (case join_resp be of
                    Some joinError \<Rightarrow>
                      ([Prevent_default, Select_room_user (id' r) (session_user_id sess),
                        Count_room_users (id' r),
                        Insert_room_user (id' r) (session_user_id sess)]
                         @ catch_toast joinError, st)
                  | None \<Rightarrow>
                      ([Prevent_default, Select_room_user (id' r) (session_user_id sess),
                        Count_room_users (id' r),
                        Insert_room_user (id' r) (session_user_id sess),
                        On_room_select (id' r),
                        Toast_success (str ''Successfully joined the room!'')],
                       st\<lparr>showJoinModal := False, joinPassword := []\<rparr>))))"
  using assms by (simp add: joinRoom_def)

text \<open>
  Claim C1, as stated: whenever the count is at least \<open>max_users\<close>, the supplied
  password matches and the user has no membership row, the room-full notice is shown.
  With one space stored as the room's password and one space supplied, two memberships
  in the room for two and no row of the user, the handler stops at its first check: the
  notice is that a password is required, and no room-full notice is shown.
\<close>

theorem blank_password_room_full_counterexample:
  "selectedRoom ex_blank_state = Some ex_blank_room
   \<and> joinPassword ex_blank_state = password_hash ex_blank_room
   \<and> membership_resp (ex_backend None (Some 2)) = Inr None
   \<and> count_resp (ex_backend None (Some 2)) = Inr (Some 2)
   \<and> max_users ex_blank_room \<le> 2
   \<and> fst (joinRoom ex_session (ex_backend None (Some 2)) ex_blank_state)
       = [Prevent_default, Toast_error (str ''Room password is required'')]
   \<and> Toast_error (str ''Room is full. Please try another room.'')
       \<notin> set (fst (joinRoom ex_session (ex_backend None (Some 2)) ex_blank_state))"
  by (simp add: joinRoom_def ex_defs)

text \<open>
  Claim C1, amended. A join attempt on a room whose membership count, as the count query
  returns it, is at least \<open>max_users\<close>, with the matching password and no membership row
  of the user, inserts no membership row and does not navigate; when the supplied
  password is not blank (not empty after trimming white space), it shows the room-full
  notice.
\<close>

theorem joinRoom_room_full:
  assumes "selectedRoom st = Some r"
    and "joinPassword st = password_hash r"
    and "membership_resp be = Inr None"
    and "count_resp be = Inr (Some c)"
    and "max_users r \<le> c"
  shows "(trim (joinPassword st) \<noteq> []
            \<longrightarrow> Toast_error (str ''Room is full. Please try another room.'')
                  \<in> set (fst (joinRoom sess be st)))
       \<and> \<not> list_ex is_membership_insert (fst (joinRoom sess be st))
       \<and> \<not> list_ex is_navigation (fst (joinRoom sess be st))"
proof (cases "trim (joinPassword st) = []")
  case True
  with assms(1) show ?thesis by (simp add: joinRoom_blank_password)
next
  case False
  with assms(2) have "trim (password_hash r) \<noteq> []" by simp
  with assms show ?thesis by (simp add: joinRoom_accepted)
qed

text \<open>The scenario of the specification: two memberships in a room for two, a third user.\<close>

theorem joinRoom_room_full_witness:
  "selectedRoom (ex_join_state (str ''abc123'')) = Some ex_room
   \<and> max_users ex_room \<le> 2
   \<and> trim (joinPassword (ex_join_state (str ''abc123''))) \<noteq> []
   \<and> Toast_error (str ''Room is full. Please try another room.'')
       \<in> set (fst (joinRoom ex_session (ex_backend None (Some 2)) (ex_join_state (str ''abc123''))))
   \<and> \<not> list_ex is_membership_insert
         (fst (joinRoom ex_session (ex_backend None (Some 2)) (ex_join_state (str ''abc123''))))
   \<and> \<not> list_ex is_navigation
         (fst (joinRoom ex_session (ex_backend None (Some 2)) (ex_join_state (str ''abc123''))))"
proof -
  have h: "selectedRoom (ex_join_state (str ''abc123'')) = Some ex_room"
    "joinPassword (ex_join_state (str ''abc123'')) = password_hash ex_room"
    "membership_resp (ex_backend None (Some 2)) = Inr None"
    "count_resp (ex_backend None (Some 2)) = Inr (Some 2)"
    "max_users ex_room \<le> 2"
    by (simp_all add: ex_defs)
  have n: "trim (joinPassword (ex_join_state (str ''abc123''))) \<noteq> []"
    by (simp add: ex_defs)
  from joinRoom_room_full [OF h, of ex_session] h(1,5) n show ?thesis by blast
qed

text \<open>
  Claim C2. A join attempt whose non-empty password differs from the room's stored
  password inserts no membership row and does not call \<open>onRoomSelect\<close>.
\<close>

theorem joinRoom_wrong_password:
  assumes "selectedRoom st = Some r"
    and "joinPassword st \<noteq> []"
    and "joinPassword st \<noteq> password_hash r"
  shows "\<not> list_ex is_membership_insert (fst (joinRoom sess be st))
       \<and> \<not> list_ex is_navigation (fst (joinRoom sess be st))"
  using assms by (simp add: joinRoom_rejected_password)

theorem joinRoom_wrong_password_witness:
  "joinPassword (ex_join_state (str ''abc124'')) \<noteq> password_hash ex_room
   \<and> \<not> list_ex is_membership_insert
         (fst (joinRoom ex_session (ex_backend None (Some 0)) (ex_join_state (str ''abc124''))))
   \<and> \<not> list_ex is_navigation
         (fst (joinRoom ex_session (ex_backend None (Some 0)) (ex_join_state (str ''abc124''))))"
proof -
  have h: "selectedRoom (ex_join_state (str ''abc124'')) = Some ex_room"
    "joinPassword (ex_join_state (str ''abc124'')) \<noteq> []"
    "joinPassword (ex_join_state (str ''abc124'')) \<noteq> password_hash ex_room"
    by (simp_all add: ex_defs)
  from joinRoom_wrong_password [OF h, of ex_session "ex_backend None (Some 0)"] h(3)
  show ?thesis by simp
qed

text \<open>
  Claim C3, as stated: both the room-full rejection and the incorrect-password rejection
  close the join dialog. The incorrect-password rejection does not: with the dialog open
  on \<open>r1\<close> and the password \<open>abc124\<close> for the stored \<open>abc123\<close>, the handler shows its
  notice and the dialog stays open.
\<close>

theorem incorrect_password_keeps_modal:
  "joinPassword (ex_join_state (str ''abc124'')) \<noteq> password_hash ex_room
   \<and> fst (joinRoom ex_session (ex_backend None (Some 0)) (ex_join_state (str ''abc124'')))
       = [Prevent_default, Toast_error (str ''Incorrect password'')]
   \<and> showJoinModal
       (snd (joinRoom ex_session (ex_backend None (Some 0)) (ex_join_state (str ''abc124''))))"
  by (simp add: joinRoom_def ex_defs)

text \<open>
  Claim C3, amended. The room-full rejection shows a notice and closes the join dialog;
  the incorrect-password rejection shows a notice and leaves the state, the dialog's
  flag with it, as it was.
\<close>

theorem joinRoom_rejections:
  "(selectedRoom st = Some r \<and> trim (password_hash r) \<noteq> [] \<and> joinPassword st = password_hash r
      \<and> membership_resp be = Inr None \<and> count_resp be = Inr (Some c) \<and> max_users r \<le> c
    \<longrightarrow> Toast_error (str ''Room is full. Please try another room.'')
          \<in> set (fst (joinRoom sess be st))
        \<and> \<not> showJoinModal (snd (joinRoom sess be st)))
 \<and> (selectedRoom st = Some r \<and> trim (joinPassword st) \<noteq> [] \<and> joinPassword st \<noteq> password_hash r
    \<longrightarrow> Toast_error (str ''Incorrect password'') \<in> set (fst (joinRoom sess be st))
        \<and> snd (joinRoom sess be st) = st)"
  by (simp add: joinRoom_accepted joinRoom_rejected_password)

theorem joinRoom_rejections_witness:
  "Toast_error (str ''Room is full. Please try another room.'')
     \<in> set (fst (joinRoom ex_session (ex_backend None (Some 2)) (ex_join_state (str ''abc123''))))
   \<and> \<not> showJoinModal
         (snd (joinRoom ex_session (ex_backend None (Some 2)) (ex_join_state (str ''abc123''))))
   \<and> Toast_error (str ''Incorrect password'')
       \<in> set (fst (joinRoom ex_session (ex_backend None (Some 2)) (ex_join_state (str ''abc124''))))
   \<and> snd (joinRoom ex_session (ex_backend None (Some 2)) (ex_join_state (str ''abc124'')))
       = ex_join_state (str ''abc124'')"
proof -
  have full: "selectedRoom (ex_join_state (str ''abc123'')) = Some ex_room
      \<and> trim (password_hash ex_room) \<noteq> []
      \<and> joinPassword (ex_join_state (str ''abc123'')) = password_hash ex_room
      \<and> membership_resp (ex_backend None (Some 2)) = Inr None
      \<and> count_resp (ex_backend None (Some 2)) = Inr (Some 2) \<and> max_users ex_room \<le> 2"
    by (simp add: ex_defs)
  have wrong: "selectedRoom (ex_join_state (str ''abc124'')) = Some ex_room
      \<and> trim (joinPassword (ex_join_state (str ''abc124''))) \<noteq> []
      \<and> joinPassword (ex_join_state (str ''abc124'')) \<noteq> password_hash ex_room"
    by (simp add: ex_defs)
  from joinRoom_rejections
         [of "ex_join_state (str ''abc123'')" ex_room "ex_backend None (Some 2)" 2 ex_session]
       full
  have a: "Toast_error (str ''Room is full. Please try another room.'')
     \<in> set (fst (joinRoom ex_session (ex_backend None (Some 2)) (ex_join_state (str ''abc123''))))
   \<and> \<not> showJoinModal
         (snd (joinRoom ex_session (ex_backend None (Some 2)) (ex_join_state (str ''abc123''))))"
    by blast
  from joinRoom_rejections
         [of "ex_join_state (str ''abc124'')" ex_room "ex_backend None (Some 2)" 2 ex_session]
       wrong
  have b: "Toast_error (str ''Incorrect password'')
       \<in> set (fst (joinRoom ex_session (ex_backend None (Some 2)) (ex_join_state (str ''abc124''))))
   \<and> snd (joinRoom ex_session (ex_backend None (Some 2)) (ex_join_state (str ''abc124'')))
       = ex_join_state (str ''abc124'')"
    by blast
  from a b show ?thesis by blast
qed

text \<open>
  Claim C4, as stated: a user with a membership row who supplies a non-empty password
  that matches the stored one is navigated into the room. With one space stored and one
  space supplied the password is not empty and matches, yet the handler stops at its
  first check and \<open>onRoomSelect\<close> is not called.
\<close>

theorem blank_password_member_counterexample:
  "selectedRoom ex_blank_state = Some ex_blank_room
   \<and> joinPassword ex_blank_state \<noteq> []
   \<and> joinPassword ex_blank_state = password_hash ex_blank_room
   \<and> membership_resp (ex_backend (Some ()) (Some 1)) = Inr (Some ())
   \<and> filter is_navigation (fst (joinRoom ex_session (ex_backend (Some ()) (Some 1)) ex_blank_state))
       = []"
  by (simp add: joinRoom_def ex_defs)

text \<open>
  Claim C4, amended. A join attempt by a user who already has a membership row for the
  room, with a password that matches the stored one, inserts no membership row; when
  the supplied password is not blank (not empty after trimming white space), it calls
  \<open>onRoomSelect\<close> with the room's id, once.
\<close>

theorem joinRoom_existing_member:
  assumes "selectedRoom st = Some r"
    and "joinPassword st = password_hash r"
    and "membership_resp be = Inr (Some m)"
  shows "\<not> list_ex is_membership_insert (fst (joinRoom sess be st))
       \<and> (trim (joinPassword st) \<noteq> []
            \<longrightarrow> filter is_navigation (fst (joinRoom sess be st)) = [On_room_select (id' r)])"
proof (cases "trim (joinPassword st) = []")
  case True
  with assms(1) show ?thesis by (simp add: joinRoom_blank_password)
next
  case False
  with assms(2) have "trim (password_hash r) \<noteq> []" by simp
  with assms show ?thesis by (simp add: joinRoom_accepted)
qed

theorem joinRoom_existing_member_witness:
  "membership_resp (ex_backend (Some ()) (Some 2)) = Inr (Some ())
   \<and> trim (joinPassword (ex_join_state (str ''abc123''))) \<noteq> []
   \<and> \<not> list_ex is_membership_insert
         (fst (joinRoom ex_session (ex_backend (Some ()) (Some 2)) (ex_join_state (str ''abc123''))))
   \<and> filter is_navigation
       (fst (joinRoom ex_session (ex_backend (Some ()) (Some 2)) (ex_join_state (str ''abc123''))))
       = [On_room_select (str ''r1'')]"
proof -
  have h: "selectedRoom (ex_join_state (str ''abc123'')) = Some ex_room"
    "joinPassword (ex_join_state (str ''abc123'')) = password_hash ex_room"
    "membership_resp (ex_backend (Some ()) (Some 2)) = Inr (Some ())"
    by (simp_all add: ex_defs)
  have n: "trim (joinPassword (ex_join_state (str ''abc123''))) \<noteq> []"
    by (simp add: ex_defs)
  have i: "id' ex_room = str ''r1''" by (simp add: ex_room_def)
  from joinRoom_existing_member [OF h, of ex_session] h(3) n i show ?thesis by simp
qed

text \<open>
  Claim C10, as stated: with a null count, a matching password, no membership row and
  no query error, the membership insert proceeds. With one space stored and one space
  supplied the password matches, yet the handler stops at its first check and makes no
  membership insert.
\<close>

theorem blank_password_null_count_counterexample:
  "selectedRoom ex_blank_state = Some ex_blank_room
   \<and> joinPassword ex_blank_state = password_hash ex_blank_room
   \<and> membership_resp (ex_backend None None) = Inr None
   \<and> count_resp (ex_backend None None) = Inr None
   \<and> \<not> list_ex is_membership_insert (fst (joinRoom ex_session (ex_backend None None) ex_blank_state))"
  by (simp add: joinRoom_def ex_defs)

text \<open>
  Claim C10, amended. When the count query answers with a null count (the supplied
  password not blank and matching, no membership row, no query error), the capacity
  check is passed over: the handler goes on to the membership insert, and \<open>max_users\<close>
  plays no part in what it does.
\<close>

theorem joinRoom_null_count:
  assumes "selectedRoom st = Some r"
    and "trim (joinPassword st) \<noteq> []"
    and "joinPassword st = password_hash r"
    and "membership_resp be = Inr None"
    and "count_resp be = Inr None"
  shows "fst (joinRoom sess be st) =
       [Prevent_default, Select_room_user (id' r) (session_user_id sess), Count_room_users (id' r),
        Insert_room_user (id' r) (session_user_id sess)]
       @ (case join_resp be of
            None \<Rightarrow> [On_room_select (id' r), Toast_success (str ''Successfully joined the room!'')]
          | Some joinError \<Rightarrow> catch_toast joinError)"
proof -
  from assms(2,3) have "trim (password_hash r) \<noteq> []" by simp
  with assms show ?thesis by (simp add: joinRoom_accepted split: option.splits)
qed

text \<open>A room with \<open>max_users = 0\<close> is joined when the count is null.\<close>

theorem joinRoom_null_count_witness:
  "count_resp (ex_backend None None) = Inr None
   \<and> fst (joinRoom ex_session (ex_backend None None)
          ((ex_join_state (str ''abc123''))\<lparr>selectedRoom := Some (ex_room\<lparr>max_users := 0\<rparr>)\<rparr>))
       = [Prevent_default, Select_room_user (str ''r1'') (str ''u3''), Count_room_users (str ''r1''),
          Insert_room_user (str ''r1'') (str ''u3''), On_room_select (str ''r1''),
          Toast_success (str ''Successfully joined the room!'')]"
proof -
  have h: "selectedRoom ((ex_join_state (str ''abc123''))\<lparr>selectedRoom := Some (ex_room\<lparr>max_users := 0\<rparr>)\<rparr>)
             = Some (ex_room\<lparr>max_users := 0\<rparr>)"
    "trim (joinPassword ((ex_join_state (str ''abc123''))\<lparr>selectedRoom := Some (ex_room\<lparr>max_users := 0\<rparr>)\<rparr>))
       \<noteq> []"
    "joinPassword ((ex_join_state (str ''abc123''))\<lparr>selectedRoom := Some (ex_room\<lparr>max_users := 0\<rparr>)\<rparr>)
       = password_hash (ex_room\<lparr>max_users := 0\<rparr>)"
    "membership_resp (ex_backend None None) = Inr None"
    "count_resp (ex_backend None None) = Inr None"
    by (simp_all add: ex_defs)
  have i: "id' (ex_room\<lparr>max_users := 0\<rparr>) = str ''r1''" "session_user_id ex_session = str ''u3''"
    "join_resp (ex_backend None None) = None"
    by (simp_all add: ex_room_def ex_session_def ex_backend_def)
  from joinRoom_null_count [OF h, of ex_session] h(5) i show ?thesis by simp
qed

section \<open>Ordering and searching the directory\<close>

lemma mset_sort_insert: "mset (sort_insert cmp x ys) = add_mset x (mset ys)"
  by (induction ys) auto

lemma mset_array_sort: "mset (array_sort cmp xs) = mset xs"
  by (induction xs) (auto simp: array_sort_def mset_sort_insert)

lemma set_array_sort: "set (array_sort cmp xs) = set xs"
  by (metis mset_array_sort set_mset_mset)

lemma set_sort_insert: "set (sort_insert cmp x ys) = insert x (set ys)"
  by (metis mset_sort_insert set_mset_mset set_mset_add_mset_insert)

text \<open>With a total and transitive comparator the insertion keeps a sorted list sorted.\<close>

lemma sorted_wrt_sort_insert:
  assumes total: "\<And>a b. cmp a b \<le> 0 \<or> cmp b a \<le> 0"
    and trans: "\<And>a b c. cmp a b \<le> 0 \<Longrightarrow> cmp b c \<le> 0 \<Longrightarrow> cmp a c \<le> 0"
    and "sorted_wrt (\<lambda>a b. cmp a b \<le> 0) ys"
  shows "sorted_wrt (\<lambda>a b. cmp a b \<le> 0) (sort_insert cmp x ys)"
  using assms(3)
proof (induction ys)
  case Nil
  then show ?case by simp
next
  case (Cons y ys)
  show ?case
  proof (cases "cmp x y \<le> 0")
    case True
    have "\<forall>z\<in>set ys. cmp x z \<le> 0"
      using Cons.prems True trans by auto
    with True Cons.prems show ?thesis by simp
  next
    case False
    then have "cmp y x \<le> 0" using total by blast
    with False Cons show ?thesis by (auto simp: set_sort_insert)
  qed
qed

lemma sorted_wrt_array_sort:
  assumes total: "\<And>a b. cmp a b \<le> 0 \<or> cmp b a \<le> 0"
    and trans: "\<And>a b c. cmp a b \<le> 0 \<Longrightarrow> cmp b c \<le> 0 \<Longrightarrow> cmp a c \<le> 0"
  shows "sorted_wrt (\<lambda>a b. cmp a b \<le> 0) (array_sort cmp xs)"
proof (induction xs)
  case Nil
  then show ?case by (simp add: array_sort_def)
next
  case (Cons x xs)
  have "array_sort cmp (x # xs) = sort_insert cmp x (array_sort cmp xs)"
    by (simp add: array_sort_def)
  with Cons show ?case
    using sorted_wrt_sort_insert [of cmp, OF total trans] by simp
qed

text \<open>The comparator is the order of the specification, and it is total and transitive.\<close>

lemma compareRooms_le:
  "compareRooms getTime sess a b \<le> 0 \<longleftrightarrow> owner_first_recent getTime sess a b"
  by (auto simp: compareRooms_def owner_first_recent_def)

lemma compareRooms_total:
  "compareRooms getTime sess a b \<le> 0 \<or> compareRooms getTime sess b a \<le> 0"
  by (auto simp: compareRooms_def)

lemma compareRooms_trans:
  "compareRooms getTime sess a b \<le> 0 \<Longrightarrow> compareRooms getTime sess b c \<le> 0
     \<Longrightarrow> compareRooms getTime sess a c \<le> 0"
  by (auto simp: compareRooms_def split: if_splits)

text \<open>\<open>fetchRooms\<close> stores the sorted rows as the rooms and as the shown rooms.\<close>

lemma fetchRooms_sorted:
  "fetchRooms getTime sess (Inr (Some rs)) st =
     ([], st\<lparr>rooms := array_sort (compareRooms getTime sess) rs,
             filteredRooms := array_sort (compareRooms getTime sess) rs\<rparr>)"
  by (simp add: fetchRooms_def Let_def)

text \<open>
  Claim C5. For every list of rooms and every user, the directory's sort puts every
  room the user owns before every room the user does not own and orders each of the two
  groups by creation time, latest first: of any two rooms of the result, the earlier
  one \<open>a\<close> and the later one \<open>b\<close> satisfy \<open>owner_first_recent\<close>. The result holds the
  rooms of the input, each as often as the input does.
\<close>

theorem sort_owner_first_recent:
  "sorted_wrt (owner_first_recent getTime sess) (array_sort (compareRooms getTime sess) rs)
   \<and> mset (array_sort (compareRooms getTime sess) rs) = mset rs"
proof -
  have "sorted_wrt (\<lambda>a b. compareRooms getTime sess a b \<le> 0)
          (array_sort (compareRooms getTime sess) rs)"
    by (rule sorted_wrt_array_sort) (rule compareRooms_total, erule (1) compareRooms_trans)
  then show ?thesis by (simp add: compareRooms_le mset_array_sort)
qed

text \<open>For \<open>u3\<close>: the two own rooms first, the later one leading, then the foreign room.\<close>

theorem sort_owner_first_recent_witness:
  "array_sort (compareRooms ex_getTime ex_session) ex_rooms
     = [ex_rooms ! 2, ex_rooms ! 1, ex_rooms ! 0]
   \<and> sorted_wrt (owner_first_recent ex_getTime ex_session)
       [ex_rooms ! 2, ex_rooms ! 1, ex_rooms ! 0]"
proof -
  have e: "array_sort (compareRooms ex_getTime ex_session) ex_rooms
             = [ex_rooms ! 2, ex_rooms ! 1, ex_rooms ! 0]"
    by (simp add: ex_defs array_sort_def compareRooms_def)
  with sort_owner_first_recent [of ex_getTime ex_session ex_rooms] show ?thesis by simp
qed

text \<open>
  Claim C6, as stated: for every non-empty query the shown rooms are exactly the rooms
  whose id or name contains the query as a case-insensitive substring, and a query that
  matches no room shows none. The query of one space is not empty and occurs in no id
  and no name of the three example rooms, yet all three are shown.
\<close>

theorem search_blank_query_counterexample:
  "str '' '' \<noteq> []
   \<and> filteredRooms
       (searchEffect ascii_toLowerCase ex_getTime ex_session (ex_search_state (str '' '')))
        = [ex_rooms ! 2, ex_rooms ! 1, ex_rooms ! 0]
   \<and> \<not> matches_ignoring_case (str '' '') (ex_rooms ! 0)
   \<and> \<not> matches_ignoring_case (str '' '') (ex_rooms ! 1)
   \<and> \<not> matches_ignoring_case (str '' '') (ex_rooms ! 2)"
  by (simp add: searchEffect_def ex_defs array_sort_def compareRooms_def
        matches_ignoring_case_def eq_ignoring_case_def)

text \<open>
  Beyond ASCII the search is by lower-cased strings and not by case-insensitive parts:
  \<open>toLowerCase\<close> turns a capital sigma that ends a word into the final small sigma, so
  the room named by capital alpha and capital sigma is not shown for the query of one
  capital sigma, which is a part of its name as it stands.
\<close>

lemma search_final_sigma:
  "trim (searchQuery ex_sigma_state) \<noteq> []
   \<and> includes_str (name ex_sigma_room) (searchQuery ex_sigma_state)
   \<and> matches_ignoring_case (searchQuery ex_sigma_state) ex_sigma_room
   \<and> filteredRooms (searchEffect sigma_toLowerCase ex_getTime ex_session ex_sigma_state) = []"
  by (simp add: searchEffect_def ex_defs array_sort_def matches_ignoring_case_def
        eq_ignoring_case_def sigma_toLowerCase_def greek_lower_def)

text \<open>
  Claim C6, amended. For every list of rooms and every query that is not blank (not
  empty after trimming white space), the shown rooms are exactly the rooms whose
  lower-cased id or lower-cased name contains the lower-cased query, the strings
  lower-cased whole by \<open>toLowerCase\<close>. When the query and the ids and names of the rooms
  are ASCII text, these are exactly the rooms whose id or name contains the query as a
  case-insensitive substring; so such a room is shown, and a query that matches no room
  shows none.
\<close>

theorem search_nonblank_query:
  assumes "trim (searchQuery st) \<noteq> []"
  shows "set (filteredRooms (searchEffect toLowerCase getTime sess st))
           = {r \<in> set (rooms st).
                includes_str (toLowerCase (id' r)) (toLowerCase (searchQuery st))
                \<or> includes_str (toLowerCase (name r)) (toLowerCase (searchQuery st))}
       \<and> ((\<forall>s. list_all is_ascii s \<longrightarrow> toLowerCase s = ascii_toLowerCase s)
            \<and> list_all is_ascii (searchQuery st)
            \<and> (\<forall>r\<in>set (rooms st). list_all is_ascii (id' r) \<and> list_all is_ascii (name r))
           \<longrightarrow> set (filteredRooms (searchEffect toLowerCase getTime sess st))
                 = {r \<in> set (rooms st). matches_ignoring_case (searchQuery st) r}
               \<and> ((\<forall>r\<in>set (rooms st). \<not> matches_ignoring_case (searchQuery st) r)
                    \<longrightarrow> filteredRooms (searchEffect toLowerCase getTime sess st) = []))"
proof (intro conjI impI)
  show eq: "set (filteredRooms (searchEffect toLowerCase getTime sess st))
           = {r \<in> set (rooms st).
                includes_str (toLowerCase (id' r)) (toLowerCase (searchQuery st))
                \<or> includes_str (toLowerCase (name r)) (toLowerCase (searchQuery st))}"
    using assms by (auto simp: searchEffect_def set_array_sort Let_def)
  assume a: "(\<forall>s. list_all is_ascii s \<longrightarrow> toLowerCase s = ascii_toLowerCase s)
            \<and> list_all is_ascii (searchQuery st)
            \<and> (\<forall>r\<in>set (rooms st). list_all is_ascii (id' r) \<and> list_all is_ascii (name r))"
  have m: "(includes_str (toLowerCase (id' r)) (toLowerCase (searchQuery st))
             \<or> includes_str (toLowerCase (name r)) (toLowerCase (searchQuery st)))
           = matches_ignoring_case (searchQuery st) r" if "r \<in> set (rooms st)" for r
  proof -
    from a that have "toLowerCase (id' r) = ascii_toLowerCase (id' r)"
      and "toLowerCase (name r) = ascii_toLowerCase (name r)"
      and "toLowerCase (searchQuery st) = ascii_toLowerCase (searchQuery st)"
      by blast+
    then show ?thesis by (simp add: includes_lower matches_ignoring_case_def)
  qed
  from m have "{r \<in> set (rooms st).
                includes_str (toLowerCase (id' r)) (toLowerCase (searchQuery st))
                \<or> includes_str (toLowerCase (name r)) (toLowerCase (searchQuery st))}
             = {r \<in> set (rooms st). matches_ignoring_case (searchQuery st) r}"
    by blast
  with eq show eq': "set (filteredRooms (searchEffect toLowerCase getTime sess st))
                 = {r \<in> set (rooms st). matches_ignoring_case (searchQuery st) r}"
    by (rule trans)
  assume "\<forall>r\<in>set (rooms st). \<not> matches_ignoring_case (searchQuery st) r"
  then have "{r \<in> set (rooms st). matches_ignoring_case (searchQuery st) r} = {}"
    by simp
  with eq' have "set (filteredRooms (searchEffect toLowerCase getTime sess st)) = {}"
    by (rule trans)
  then show "filteredRooms (searchEffect toLowerCase getTime sess st) = []"
    by (simp only: set_empty)
qed

text \<open>The query \<open>MATH\<close> shows the room named Maths alone; the query \<open>zz\<close> shows none.\<close>

theorem search_nonblank_query_witness:
  "trim (searchQuery (ex_search_state (str ''MATH''))) \<noteq> []
   \<and> filteredRooms
       (searchEffect ascii_toLowerCase ex_getTime ex_session (ex_search_state (str ''MATH'')))
        = [ex_rooms ! 1]
   \<and> matches_ignoring_case (str ''MATH'') (ex_rooms ! 1)
   \<and> trim (searchQuery (ex_search_state (str ''zz''))) \<noteq> []
   \<and> filteredRooms
       (searchEffect ascii_toLowerCase ex_getTime ex_session (ex_search_state (str ''zz'')))
        = []"
proof -
  have h: "trim (searchQuery (ex_search_state (str ''MATH''))) \<noteq> []"
    by (simp add: ex_defs)
  have q: "searchQuery (ex_search_state (str ''MATH'')) = str ''MATH''"
    by (simp add: ex_search_state_def)
  have l: "\<forall>s. list_all is_ascii s \<longrightarrow> ascii_toLowerCase s = ascii_toLowerCase s"
    by simp
  have a: "list_all is_ascii (searchQuery (ex_search_state (str ''MATH'')))
      \<and> (\<forall>r\<in>set (rooms (ex_search_state (str ''MATH''))).
            list_all is_ascii (id' r) \<and> list_all is_ascii (name r))"
    by (simp add: ex_defs is_ascii_def)
  have e: "filteredRooms
       (searchEffect ascii_toLowerCase ex_getTime ex_session (ex_search_state (str ''MATH'')))
        = [ex_rooms ! 1]"
    by (simp add: searchEffect_def ex_defs array_sort_def compareRooms_def
        ascii_toLowerCase_def ascii_lower_def)
  have "ex_rooms ! 1 \<in> set (filteredRooms
       (searchEffect ascii_toLowerCase ex_getTime ex_session (ex_search_state (str ''MATH''))))"
    unfolding e by (simp only: list.set_intros)
  with search_nonblank_query [OF h, of ascii_toLowerCase ex_getTime ex_session] l a
  have "ex_rooms ! 1 \<in> {r \<in> set (rooms (ex_search_state (str ''MATH''))).
          matches_ignoring_case (searchQuery (ex_search_state (str ''MATH''))) r}"
    by blast
  then have m: "matches_ignoring_case (str ''MATH'') (ex_rooms ! 1)"
    unfolding q by blast
  have h': "trim (searchQuery (ex_search_state (str ''zz''))) \<noteq> []"
    by (simp add: ex_defs)
  have a': "list_all is_ascii (searchQuery (ex_search_state (str ''zz'')))
      \<and> (\<forall>r\<in>set (rooms (ex_search_state (str ''zz''))).
            list_all is_ascii (id' r) \<and> list_all is_ascii (name r))"
    by (simp add: ex_defs is_ascii_def)
  have n: "\<forall>r\<in>set (rooms (ex_search_state (str ''zz''))).
             \<not> matches_ignoring_case (searchQuery (ex_search_state (str ''zz''))) r"
    by (simp add: ex_defs matches_ignoring_case_def eq_ignoring_case_def)
  from search_nonblank_query [OF h', of ascii_toLowerCase ex_getTime ex_session] l a' n
  have z: "filteredRooms
       (searchEffect ascii_toLowerCase ex_getTime ex_session (ex_search_state (str ''zz'')))
        = []"
    by blast
  from h e m h' z show ?thesis by blast
qed

section \<open>The chat panel\<close>

text \<open>
  Claim C9. A text send whose input is empty or holds white space only makes no message
  insert and leaves the message list as it was.
\<close>

theorem handleSend_blank:
  assumes "newMessage st = [] \<or> (\<forall>c\<in>set (newMessage st). isWhiteSpace c)"
  shows "\<not> list_ex is_message_insert (fst (handleSend sess roomId insert_resp st))
       \<and> messages (snd (handleSend sess roomId insert_resp st)) = messages st"
proof -
  from assms have "trim (newMessage st) = []" by (auto simp: trim_empty_iff)
  then show ?thesis by (simp add: handleSend_def)
qed

theorem handleSend_blank_witness:
  "trim (newMessage (ex_chat_state (str '' ''))) = []
   \<and> \<not> list_ex is_message_insert
         (fst (handleSend ex_session (str ''r1'') None (ex_chat_state (str '' ''))))
   \<and> messages (snd (handleSend ex_session (str ''r1'') None (ex_chat_state (str '' '')))) = []"
proof -
  have h: "newMessage (ex_chat_state (str '' '')) = []
           \<or> (\<forall>c\<in>set (newMessage (ex_chat_state (str '' ''))). isWhiteSpace c)"
    by (simp add: ex_defs)
  have t: "trim (newMessage (ex_chat_state (str '' ''))) = []"
    by (simp add: ex_defs)
  have m: "messages (ex_chat_state (str '' '')) = []"
    by (simp add: ex_chat_state_def)
  from handleSend_blank [OF h, of ex_session "str ''r1''" None] t m show ?thesis
    by simp
qed

text \<open>
  Claim C8. In an image send, a failed storage upload is followed by no message insert:
  whenever a message insert is made, the upload has succeeded, and what the handler did
  before the insert is the upload and the resolution of the public URL of the same path.
\<close>

theorem handleImageUpload_insert_after_upload:
  "(upload_resp be \<noteq> None
      \<longrightarrow> \<not> list_ex is_message_insert (fst (handleImageUpload sess roomId be f st)))
   \<and> (list_ex is_message_insert (fst (handleImageUpload sess roomId be f st)) \<longrightarrow>
        upload_resp be = None
        \<and> takeWhile (\<lambda>e. \<not> is_message_insert e) (fst (handleImageUpload sess roomId be f st))
            = [Storage_upload (filePath sess be f), Storage_getPublicUrl (filePath sess be f)])"
  by (auto simp: handleImageUpload_def catch_toast_def Let_def split: option.splits)

theorem handleImageUpload_insert_after_upload_witness:
  "upload_resp (ex_upload_backend (Some ex_error)) = Some ex_error
   \<and> \<not> list_ex is_message_insert
         (fst (handleImageUpload ex_session (str ''r1'') (ex_upload_backend (Some ex_error))
                ex_file (ex_chat_state [])))
   \<and> list_ex is_message_insert
       (fst (handleImageUpload ex_session (str ''r1'') (ex_upload_backend None)
              ex_file (ex_chat_state [])))
   \<and> takeWhile (\<lambda>e. \<not> is_message_insert e)
       (fst (handleImageUpload ex_session (str ''r1'') (ex_upload_backend None)
              ex_file (ex_chat_state [])))
       = [Storage_upload (str ''u3/0.25.png''), Storage_getPublicUrl (str ''u3/0.25.png'')]"
proof -
  have p: "filePath ex_session (ex_upload_backend None) ex_file = str ''u3/0.25.png''"
    by (simp add: filePath_def fileExt_def ex_defs)
  have u: "upload_resp (ex_upload_backend (Some ex_error)) = Some ex_error"
    by (simp add: ex_upload_backend_def)
  have b: "list_ex is_message_insert
       (fst (handleImageUpload ex_session (str ''r1'') (ex_upload_backend None)
              ex_file (ex_chat_state [])))"
    by (simp add: handleImageUpload_def catch_toast_def filePath_def fileExt_def ex_defs)
  from handleImageUpload_insert_after_upload
         [of "ex_upload_backend (Some ex_error)" ex_session "str ''r1''" ex_file "ex_chat_state []"] u
  have a: "\<not> list_ex is_message_insert
         (fst (handleImageUpload ex_session (str ''r1'') (ex_upload_backend (Some ex_error))
                ex_file (ex_chat_state [])))"
    by simp
  from handleImageUpload_insert_after_upload
         [of "ex_upload_backend None" ex_session "str ''r1''" ex_file "ex_chat_state []"] b p
  have c: "takeWhile (\<lambda>e. \<not> is_message_insert e)
       (fst (handleImageUpload ex_session (str ''r1'') (ex_upload_backend None)
              ex_file (ex_chat_state [])))
       = [Storage_upload (str ''u3/0.25.png''), Storage_getPublicUrl (str ''u3/0.25.png'')]"
    by simp
  from u a b c show ?thesis by blast
qed

section \<open>The room view\<close>

lemma clicks_snoc: "clicks (acts @ [a]) st = click a (clicks acts st)"
  by (simp add: clicks_def)

text \<open>The chat and the leaderboard are never shown together.\<close>

lemma chat_excludes_leaderboard:
  "\<not> (showChat (clicks acts initial_view) \<and> showLeaderboard (clicks acts initial_view))"
proof (induction acts rule: rev_induct)
  case Nil
  then show ?case by (simp add: clicks_def initial_view_def)
next
  case (snoc a acts)
  then show ?case by (cases a) (auto simp: clicks_snoc)
qed

text \<open>
  Claim C7, as stated: in every state reached by the view buttons exactly one of the
  members panel, the leaderboard, the chat and the timer grid is shown. After one click
  on the members button two are: the members panel and the timer grid.
\<close>

theorem members_and_timers_counterexample:
  "active_views (clicks [Toggle_members] initial_view) = [Members_panel, Timer_grid]"
  by (simp add: active_views_def clicks_def initial_view_def)

text \<open>
  The members actions change \<open>showMembers\<close> alone, and the other actions leave it alone:
  after any clicks, \<open>showMembers\<close> is what the members actions among them make it, and
  \<open>showChat\<close> and \<open>showLeaderboard\<close> are what the other actions make them.
\<close>

lemma filter_snoc: "filter P (xs @ [a]) = (if P a then filter P xs @ [a] else filter P xs)"
  by simp

lemma members_flag_projection:
  "showMembers (clicks acts st) = showMembers (clicks (filter is_members_action acts) st)"
proof (induction acts rule: rev_induct)
  case Nil
  then show ?case by simp
next
  case (snoc a acts)
  then show ?case by (cases a) (simp_all add: clicks_snoc)
qed

lemma main_flags_projection:
  "showChat (clicks acts st) = showChat (clicks (filter (\<lambda>a. \<not> is_members_action a) acts) st)
   \<and> showLeaderboard (clicks acts st)
       = showLeaderboard (clicks (filter (\<lambda>a. \<not> is_members_action a) acts) st)"
proof (induction acts rule: rev_induct)
  case Nil
  then show ?case by simp
next
  case (snoc a acts)
  then show ?case by (cases a) (simp_all add: clicks_snoc)
qed

text \<open>
  Claim C7, amended. In every state reached from the initial state by the view buttons
  (and by the close button of the members panel), exactly one of the leaderboard, the
  timer grid and the chat is shown; the members panel is shown or hidden independently
  of them: whether it is shown is decided by the members actions of the sequence alone,
  and which of the other three is shown by the other actions alone.
\<close>

theorem one_main_view:
  "length (filter (rendered (clicks acts initial_view)) [Leaderboard_view, Timer_grid, Chat_panel])
     = 1
   \<and> rendered (clicks acts initial_view) Members_panel
       = rendered (clicks (filter is_members_action acts) initial_view) Members_panel
   \<and> filter (rendered (clicks acts initial_view)) [Leaderboard_view, Timer_grid, Chat_panel]
       = filter (rendered (clicks (filter (\<lambda>a. \<not> is_members_action a) acts) initial_view))
           [Leaderboard_view, Timer_grid, Chat_panel]"
proof (intro conjI)
  show "length (filter (rendered (clicks acts initial_view))
          [Leaderboard_view, Timer_grid, Chat_panel]) = 1"
    using chat_excludes_leaderboard [of acts] by auto
  show "rendered (clicks acts initial_view) Members_panel
       = rendered (clicks (filter is_members_action acts) initial_view) Members_panel"
    using members_flag_projection [of acts initial_view] by simp
  show "filter (rendered (clicks acts initial_view)) [Leaderboard_view, Timer_grid, Chat_panel]
       = filter (rendered (clicks (filter (\<lambda>a. \<not> is_members_action a) acts) initial_view))
           [Leaderboard_view, Timer_grid, Chat_panel]"
    using main_flags_projection [of acts initial_view] by simp
qed

text \<open>
  Members, chat, leaderboard, members closed, members again: the leaderboard is the one
  main view, as after chat and leaderboard alone, and the members panel is shown, as
  after the three members actions alone.
\<close>

theorem one_main_view_witness:
  "filter (rendered (clicks [Toggle_members, Toggle_chat, Toggle_leaderboard, Close_members,
                             Toggle_members] initial_view))
      [Leaderboard_view, Timer_grid, Chat_panel] = [Leaderboard_view]
   \<and> rendered (clicks [Toggle_members, Toggle_chat, Toggle_leaderboard, Close_members,
                        Toggle_members] initial_view) Members_panel
   \<and> rendered (clicks [Toggle_members, Close_members, Toggle_members] initial_view) Members_panel
   \<and> filter (rendered (clicks [Toggle_chat, Toggle_leaderboard] initial_view))
      [Leaderboard_view, Timer_grid, Chat_panel] = [Leaderboard_view]"
  using one_main_view [of "[Toggle_members, Toggle_chat, Toggle_leaderboard, Close_members,
                            Toggle_members]"]
  by (simp add: clicks_def initial_view_def)

end
